theory Spec2Isabelle
  imports Main "HOL-Library.List_Lexorder" "HOL-Library.Char_ord"
begin

section \<open>The tweets table\<close>

text \<open>
  The table \<^verbatim>\<open>tweets\<close> of \<^verbatim>\<open>init_db\<close>: one record per row, the store a list of rows in
  insertion order. \<^verbatim>\<open>scheduled_time\<close> is a \<^verbatim>\<open>TEXT\<close> column, so the store compares it as
  text: the order on \<^typ>\<open>string\<close> is the lexicographic order on character codes, the
  binary collation of SQLite. \<^verbatim>\<open>posted\<close> is an \<^verbatim>\<open>INTEGER\<close>; the application writes only
  0 and 1 into it. A character of a Python string is one \<^typ>\<open>char\<close> here.

  The column \<^verbatim>\<open>image_paths\<close> is \<^verbatim>\<open>NULL\<close> or text. \<open>JsonText xs\<close> is the text that
  \<^verbatim>\<open>json.dumps\<close> writes for the list of file names \<open>xs\<close> and that \<^verbatim>\<open>json.loads\<close> reads back
  as \<open>xs\<close>; \<open>BadText\<close> is a text that \<^verbatim>\<open>json.loads\<close> rejects.
\<close>

datatype image_col = Null | JsonText "string list" | BadText

record tweet_row =
  tweet_id :: nat
  content :: string
  scheduled_time :: string
  posted :: int
  image_paths_col :: image_col
  created_at :: string

type_synonym tweets = "tweet_row list"

section \<open>The external capabilities\<close>

type_synonym media_id = nat

datatype error = ValueError string | TweepyException string | DatabaseError string

text \<open>
  A call of the Twitter API, as the application issues it: \<^verbatim>\<open>api_v1.media_upload(path)\<close>,
  and \<^verbatim>\<open>client.create_tweet\<close> with its text and with the keyword \<^verbatim>\<open>media_ids\<close>, which is
  \<open>None\<close> when the call is written without that keyword.
\<close>

datatype event = MediaUpload string | CreateTweet string "media_id list option"

text \<open>
  The globals \<^verbatim>\<open>client\<close> and \<^verbatim>\<open>api_v1\<close> are \<open>None\<close> when the credentials are missing or
  the set-up raised. A configured client answers a call with an error (the call raises) or
  with its result. \<open>store_read_error\<close> is the exception, if any, that connecting to the
  store and running the \<^verbatim>\<open>SELECT\<close> of one scheduler pass raises. The \<^verbatim>\<open>UPDATE\<close> and
  \<^verbatim>\<open>INSERT\<close> statements and their commits are taken to succeed.
\<close>

record world =
  client :: "(string \<Rightarrow> media_id list option \<Rightarrow> error + string) option"
  api_v1 :: "(string \<Rightarrow> error + media_id) option"
  store_read_error :: "error option"

text \<open>The file system: the contents of each path that exists.\<close>

type_synonym files = "string \<rightharpoonup> string"

definition UPLOAD_FOLDER :: string where
  "UPLOAD_FOLDER = ''uploads''"

text \<open>\<^verbatim>\<open>os.path.join(a, b)\<close> on POSIX: an absolute second component replaces the first.\<close>

definition path_join :: "string \<Rightarrow> string \<Rightarrow> string" where
  "path_join a b =
     (if b \<noteq> [] \<and> hd b = CHR ''/'' then b
      else if a = [] \<or> last a = CHR ''/'' then a @ b
      else a @ ''/'' @ b)"

section \<open>The scheduler thread\<close>

text \<open>
  The query of \<^verbatim>\<open>check_and_post_tweets\<close>:
  \<^verbatim>\<open>SELECT id, content, image_paths FROM tweets WHERE posted = 0 AND scheduled_time <= ?\<close>.
  \<open>tweets_to_post\<close> keeps the whole rows; the loop reads the three selected columns.
\<close>

definition tweets_to_post :: "string \<Rightarrow> tweets \<Rightarrow> tweets" where
  "tweets_to_post now db = filter (\<lambda>r. posted r = 0 \<and> scheduled_time r \<le> now) db"

text \<open>\<^verbatim>\<open>UPDATE tweets SET posted = 1 WHERE id = ?\<close>\<close>

definition mark_as_posted :: "nat \<Rightarrow> tweets \<Rightarrow> tweets" where
  "mark_as_posted tid db = map (\<lambda>r. if tweet_id r = tid then r\<lparr>posted := 1\<rparr> else r) db"

text \<open>
  \<^verbatim>\<open>upload_media_to_twitter\<close>. The loop carries \<^verbatim>\<open>media_ids\<close> and the calls made so far;
  an upload that raises is caught inside the loop and the loop goes on.
\<close>

fun upload_each ::
  "(string \<Rightarrow> error + media_id) \<Rightarrow> files \<Rightarrow> string list \<Rightarrow> media_id list \<Rightarrow> event list
     \<Rightarrow> media_id list \<times> event list" where
  "upload_each media_upload fs [] media_ids calls = (media_ids, calls)"
| "upload_each media_upload fs (image_filename # rest) media_ids calls =
     (let image_path = path_join UPLOAD_FOLDER image_filename in
      if fs image_path \<noteq> None then
        (case media_upload image_path of
           Inr mid \<Rightarrow>
             upload_each media_upload fs rest (media_ids @ [mid]) (calls @ [MediaUpload image_path])
         | Inl e \<Rightarrow>
             upload_each media_upload fs rest media_ids (calls @ [MediaUpload image_path]))
      else upload_each media_upload fs rest media_ids calls)"

definition upload_media_to_twitter :: "world \<Rightarrow> files \<Rightarrow> string list \<Rightarrow> media_id list \<times> event list" where
  "upload_media_to_twitter w fs image_paths =
     (case api_v1 w of
        None \<Rightarrow> ([], [])
      | Some api \<Rightarrow>
          if image_paths = [] then ([], [])
          else upload_each api fs image_paths [] [])"

text \<open>
  The two branches that follow the comment \<^verbatim>\<open># Post tweet with or without media\<close>, the
  same in the scheduler and in \<^verbatim>\<open>post_now\<close>: \<^verbatim>\<open>if media_ids:\<close> is false for \<^verbatim>\<open>None\<close> and
  for the empty list. The result is the call made and what the client answers.
\<close>

definition truthy :: "media_id list option \<Rightarrow> bool" where
  "truthy media_ids = (case media_ids of None \<Rightarrow> False | Some ids \<Rightarrow> ids \<noteq> [])"

definition create_tweet ::
  "(string \<Rightarrow> media_id list option \<Rightarrow> error + string) \<Rightarrow> string \<Rightarrow> media_id list option
     \<Rightarrow> event \<times> (error + string)" where
  "create_tweet cl text media_ids =
     (if truthy media_ids then (CreateTweet text media_ids, cl text media_ids)
      else (CreateTweet text None, cl text None))"

text \<open>
  The state the scheduler works on: the table, and the API calls it has made so far, each
  with the id of the row it was made for.
\<close>

record sched_state =
  db :: tweets
  calls :: "(nat \<times> event) list"

text \<open>A block that ran to its end, or that raised after reaching a state.\<close>

datatype 'a outcome = Completed 'a | Raised error 'a

text \<open>\<^verbatim>\<open>try: ... except Exception as e: print(...)\<close>: the handler prints and goes on.\<close>

definition except_Exception :: "'a outcome \<Rightarrow> 'a" where
  "except_Exception r = (case r of Completed s \<Rightarrow> s | Raised e s \<Rightarrow> s)"

definition parse_image_paths :: "image_col \<Rightarrow> string list" where
  "parse_image_paths image_paths_json =
     (case image_paths_json of Null \<Rightarrow> [] | JsonText xs \<Rightarrow> xs | BadText \<Rightarrow> [])"

text \<open>
  The value of the variable \<^verbatim>\<open>media_ids\<close> for a row, and the uploads made to get it:
  \<^verbatim>\<open>upload_media_to_twitter(image_paths) if image_paths else None\<close>.
\<close>

definition resolve_media :: "world \<Rightarrow> files \<Rightarrow> image_col \<Rightarrow> media_id list option \<times> event list" where
  "resolve_media w fs image_paths_json =
     (let image_paths = parse_image_paths image_paths_json in
      if image_paths \<noteq> [] then
        (let (media_ids, ups) = upload_media_to_twitter w fs image_paths in (Some media_ids, ups))
      else (None, []))"

text \<open>The body of the inner \<^verbatim>\<open>try\<close>, for one selected row and a configured client.\<close>

definition try_post ::
  "(string \<Rightarrow> media_id list option \<Rightarrow> error + string) \<Rightarrow> world \<Rightarrow> files \<Rightarrow> tweet_row
     \<Rightarrow> sched_state \<Rightarrow> sched_state outcome" where
  "try_post cl w fs row st =
     (if length (content row) \<le> 280 then
        (let (media_ids, ups) = resolve_media w fs (image_paths_col row);
             (call, response) = create_tweet cl (content row) media_ids;
             st1 = st\<lparr>calls := calls st @ map (Pair (tweet_id row)) (ups @ [call])\<rparr>
         in case response of
              Inl e \<Rightarrow> Raised e st1
            | Inr tweet \<Rightarrow> Completed (st1\<lparr>db := mark_as_posted (tweet_id row) (db st1)\<rparr>))
      else Completed (st\<lparr>db := mark_as_posted (tweet_id row) (db st)\<rparr>))"

text \<open>The body of the \<^verbatim>\<open>for\<close> loop: \<^verbatim>\<open>if client:\<close>, then the inner \<^verbatim>\<open>try\<close> and its handler.\<close>

definition post_one :: "world \<Rightarrow> files \<Rightarrow> sched_state \<Rightarrow> tweet_row \<Rightarrow> sched_state" where
  "post_one w fs st row =
     (case client w of
        None \<Rightarrow> st
      | Some cl \<Rightarrow> except_Exception (try_post cl w fs row st))"

text \<open>
  The body of the outer \<^verbatim>\<open>try\<close>: read the due rows once, then handle each of them in the
  order the store returned them.
\<close>

definition scan_and_post :: "world \<Rightarrow> files \<Rightarrow> string \<Rightarrow> sched_state \<Rightarrow> sched_state outcome" where
  "scan_and_post w fs now st =
     (case store_read_error w of
        Some e \<Rightarrow> Raised e st
      | None \<Rightarrow> Completed (foldl (post_one w fs) st (tweets_to_post now (db st))))"

text \<open>One pass of \<^verbatim>\<open>while True\<close>: the outer \<^verbatim>\<open>try\<close> with its handler (then the thread sleeps).\<close>

definition tick :: "world \<Rightarrow> files \<Rightarrow> string \<Rightarrow> sched_state \<Rightarrow> sched_state" where
  "tick w fs now st = except_Exception (scan_and_post w fs now st)"


section \<open>The request handlers\<close>

text \<open>
  A request body as the two handlers read it. A JSON body gives \<^verbatim>\<open>content\<close>,
  \<^verbatim>\<open>scheduled_time\<close> and the list \<^verbatim>\<open>image_paths\<close>; a multipart form gives the two text
  fields and the files uploaded under \<^verbatim>\<open>images[]\<close>. A key that is absent reads as its
  default, the empty text or the empty list. The JSON fields are taken with the types the
  handlers expect of them.
\<close>

record upload =
  filename :: string
  file_data :: string

datatype request = Json string string "string list" | Form string string "upload list"

text \<open>
  A \<^verbatim>\<open>datetime\<close>: its calendar fields as a count of microseconds, and the offset of its
  \<^verbatim>\<open>tzinfo\<close> from UTC, \<open>None\<close> for a naive value.
\<close>

record datetime =
  wall :: int
  utcoffset :: "int option"

text \<open>
  What a request meets, outside the application: werkzeug's \<^verbatim>\<open>secure_filename\<close>, the
  prefix \<^verbatim>\<open>datetime.now().strftime('%Y%m%d_%H%M%S_')\<close> read when the \<open>i\<close>-th file of the
  request is handled, \<^verbatim>\<open>datetime.fromisoformat\<close> (\<open>Inl\<close> the message of its
  \<^verbatim>\<open>ValueError\<close>), the clock as a count of microseconds in UTC, the offset of the
  machine's local time, and the store's \<^verbatim>\<open>CURRENT_TIMESTAMP\<close>.
\<close>

record request_env =
  secure_filename :: "string \<Rightarrow> string"
  strftime_now :: "nat \<Rightarrow> string"
  fromisoformat :: "string \<Rightarrow> string + datetime"
  utc_now :: int
  local_utcoffset :: int
  current_timestamp :: string

datatype response = Scheduled nat | Posted_now string | Error_response nat string

text \<open>\<^verbatim>\<open>str.strip()\<close>: the characters below 256 for which \<^verbatim>\<open>str.isspace\<close> holds.\<close>

definition isspace :: "char \<Rightarrow> bool" where
  "isspace c = ((of_char c :: nat) \<in> {9, 10, 11, 12, 13, 28, 29, 30, 31, 32, 133, 160})"

definition strip :: "string \<Rightarrow> string" where
  "strip s = rev (dropWhile isspace (rev (dropWhile isspace s)))"

text \<open>\<^verbatim>\<open>scheduled_time.replace('Z', '+00:00')\<close> replaces every \<^verbatim>\<open>Z\<close> of the text.\<close>

definition replace_Z :: "string \<Rightarrow> string" where
  "replace_Z s = concat (map (\<lambda>c. if c = CHR ''Z'' then ''+00:00'' else [c]) s)"

text \<open>\<^verbatim>\<open>datetime.now(tz)\<close>: local time for \<^verbatim>\<open>tz = None\<close>, else the time in that zone.\<close>

definition datetime_now :: "request_env \<Rightarrow> int option \<Rightarrow> datetime" where
  "datetime_now env tz =
     (case tz of
        None \<Rightarrow> \<lparr>wall = utc_now env + local_utcoffset env, utcoffset = None\<rparr>
      | Some off \<Rightarrow> \<lparr>wall = utc_now env + off, utcoffset = Some off\<rparr>)"

text \<open>\<^verbatim>\<open>a < b\<close> on datetimes; a naive and an aware value do not compare (\<^verbatim>\<open>TypeError\<close>).\<close>

definition datetime_less :: "datetime \<Rightarrow> datetime \<Rightarrow> string + bool" where
  "datetime_less a b =
     (case (utcoffset a, utcoffset b) of
        (None, None) \<Rightarrow> Inr (wall a < wall b)
      | (Some x, Some y) \<Rightarrow> Inr (wall a - x < wall b - y)
      | _ \<Rightarrow> Inl ''can't compare offset-naive and offset-aware datetimes'')"

text \<open>
  The loop over \<^verbatim>\<open>request.files.getlist('images[]')\<close>, the same in both handlers: a file
  with a name is saved under the upload folder before anything is validated, and its stored
  name is appended to \<^verbatim>\<open>image_paths\<close>. \<open>i\<close> counts the files handled so far.
\<close>

fun save_images ::
  "request_env \<Rightarrow> nat \<Rightarrow> upload list \<Rightarrow> files \<Rightarrow> string list \<Rightarrow> files \<times> string list" where
  "save_images env i [] fs image_paths = (fs, image_paths)"
| "save_images env i (file # rest) fs image_paths =
     (if filename file \<noteq> [] then
        (let name = strftime_now env i @ secure_filename env (filename file);
             filepath = path_join UPLOAD_FOLDER name
         in save_images env (Suc i) rest (fs(filepath \<mapsto> file_data file)) (image_paths @ [name]))
      else save_images env (Suc i) rest fs image_paths)"

text \<open>
  The head of both handlers: the raw \<^verbatim>\<open>content\<close>, the \<^verbatim>\<open>scheduled_time\<close>, the
  \<^verbatim>\<open>image_paths\<close> and the files as the request leaves them.
\<close>

definition read_request ::
  "request_env \<Rightarrow> request \<Rightarrow> files \<Rightarrow> string \<times> string \<times> string list \<times> files" where
  "read_request env req fs =
     (case req of
        Json c t image_paths \<Rightarrow> (c, t, image_paths, fs)
      | Form c t uploads \<Rightarrow>
          (let (fs', image_paths) = save_images env 0 uploads fs [] in (c, t, image_paths, fs')))"

text \<open>
  The id the \<^verbatim>\<open>INSERT\<close> assigns. No row is ever deleted, so the counter of
  \<^verbatim>\<open>AUTOINCREMENT\<close> (or of \<^verbatim>\<open>SERIAL\<close>) is one above the largest id in the table.
\<close>

definition lastrowid :: "tweets \<Rightarrow> nat" where
  "lastrowid tws = Suc (foldr max (map tweet_id tws) 0)"

text \<open>
  \<^verbatim>\<open>schedule_tweet\<close>, on the table and the files; every exception inside it ends in the
  response 400 with the exception's text.
\<close>

definition schedule_tweet ::
  "request_env \<Rightarrow> request \<Rightarrow> tweets \<times> files \<Rightarrow> response \<times> tweets \<times> files" where
  "schedule_tweet env req s =
     (case s of (tws, fs) \<Rightarrow>
      case read_request env req fs of (c, t, image_paths, fs') \<Rightarrow>
      let body = strip c in
      if body = [] then (Error_response 400 ''Tweet content is required'', tws, fs')
      else if t = [] then (Error_response 400 ''Scheduled time is required'', tws, fs')
      else if length image_paths > 4 then (Error_response 400 ''Maximum 4 images allowed'', tws, fs')
      else
        (case fromisoformat env (replace_Z t) of
           Inl msg \<Rightarrow> (Error_response 400 msg, tws, fs')
         | Inr scheduled_datetime \<Rightarrow>
             (case datetime_less scheduled_datetime
                     (datetime_now env (utcoffset scheduled_datetime)) of
                Inl msg \<Rightarrow> (Error_response 400 msg, tws, fs')
              | Inr True \<Rightarrow>
                  (Error_response 400 ''Scheduled time must be in the future'', tws, fs')
              | Inr False \<Rightarrow>
                  (let image_paths_json = (if image_paths \<noteq> [] then JsonText image_paths else Null);
                       new_id = lastrowid tws
                   in (Scheduled new_id,
                       tws @ [\<lparr>tweet_id = new_id, content = body,
                                scheduled_time = t, posted = 0,
                                image_paths_col = image_paths_json,
                                created_at = current_timestamp env\<rparr>],
                       fs')))))"

text \<open>
  \<^verbatim>\<open>get_tweets\<close>: the 50 rows with the latest \<^verbatim>\<open>scheduled_time\<close>, latest first, each as
  the dictionary the handler builds. SQL leaves the order of rows with equal times open;
  here they keep the table's order.
\<close>

record tweet_json =
  json_id :: nat
  json_content :: string
  json_scheduled_time :: string
  json_posted :: bool
  json_image_paths :: "string list"
  json_created_at :: "string option"

definition tweet_dict :: "tweet_row \<Rightarrow> tweet_json" where
  "tweet_dict row =
     \<lparr>json_id = tweet_id row, json_content = content row,
      json_scheduled_time = scheduled_time row, json_posted = (posted row \<noteq> 0),
      json_image_paths = parse_image_paths (image_paths_col row),
      json_created_at = (if created_at row \<noteq> [] then Some (created_at row) else None)\<rparr>"

definition get_tweets :: "tweets \<Rightarrow> tweet_json list" where
  "get_tweets tws = map tweet_dict (take 50 (rev (sort_key scheduled_time (rev tws))))"

text \<open>
  \<^verbatim>\<open>path.split('/')[-1] if '/' in path else path.split('\\')[-1] if '\\' in path else path\<close>
\<close>

definition after_last :: "char \<Rightarrow> string \<Rightarrow> string" where
  "after_last c s = rev (takeWhile (\<lambda>x. x \<noteq> c) (rev s))"

definition image_filename :: "string \<Rightarrow> string" where
  "image_filename path =
     (if CHR ''/'' \<in> set path then after_last (CHR ''/'') path
      else if CHR 0x5C \<in> set path then after_last (CHR 0x5C) path
      else path)"



section \<open>Well-formed API calls\<close>


section \<open>Example data\<close>

text \<open>
  A small table, a clock and three states of the outside world, for the concrete runs
  further down: a tweet of 5 characters with one image, a tweet of 281 characters, and a
  tweet whose image file is not in the upload folder.
\<close>

definition ex_hello :: tweet_row where
  "ex_hello = \<lparr>tweet_id = 2, content = ''Hello'',
     scheduled_time = ''2024-01-01T10:00:30'', posted = 0, image_paths_col = JsonText [''a.png''],
     created_at = ''2024-01-01 09:00:00''\<rparr>"

definition ex_long :: tweet_row where
  "ex_long = \<lparr>tweet_id = 1, content = replicate 281 (CHR ''x''),
     scheduled_time = ''2024-01-01T10:00:00'', posted = 0, image_paths_col = Null,
     created_at = ''2024-01-01 09:00:00''\<rparr>"

definition ex_gone :: tweet_row where
  "ex_gone = \<lparr>tweet_id = 3, content = ''Pic'',
     scheduled_time = ''2024-01-01T10:00:45'', posted = 0, image_paths_col = JsonText [''gone.png''],
     created_at = ''2024-01-01 09:00:00''\<rparr>"

definition ex_state :: sched_state where
  "ex_state = \<lparr>db = [ex_hello, ex_long, ex_gone], calls = []\<rparr>"

definition ex_now :: string where
  "ex_now = ''2024-01-01T10:01:00.000000''"

definition ex_later :: string where
  "ex_later = ''2024-01-01T10:02:00.000000''"

definition ex_files :: files where
  "ex_files = [''uploads/a.png'' \<mapsto> ''PNG'']"

text \<open>Both clients answer; the publisher is down; no media client; nothing configured.\<close>

definition ex_ok :: world where
  "ex_ok = \<lparr>client = Some (\<lambda>t m. Inr ''999''), api_v1 = Some (\<lambda>p. Inr 7), store_read_error = None\<rparr>"

definition ex_down :: world where
  "ex_down = \<lparr>client = Some (\<lambda>t m. Inl (TweepyException ''503'')), api_v1 = Some (\<lambda>p. Inr 7),
     store_read_error = None\<rparr>"

definition ex_no_media :: world where
  "ex_no_media = \<lparr>client = Some (\<lambda>t m. Inr ''999''), api_v1 = None, store_read_error = None\<rparr>"



text \<open>
  What a request meets in the concrete runs: the clock reads 2024-01-01T10:00:00.000000,
  local time is UTC, \<^verbatim>\<open>fromisoformat\<close> is given on the one timestamp the runs use (a naive
  value, in microseconds since the epoch) and refuses every other text, and
  \<^verbatim>\<open>secure_filename\<close> leaves the plain name \<^verbatim>\<open>cat.png\<close> of the one uploaded file as it is.
\<close>

definition ex_env :: request_env where
  "ex_env = \<lparr>secure_filename = (\<lambda>s. s), strftime_now = (\<lambda>i. ''20240101_100000_''),
     fromisoformat = (\<lambda>s. if s = ''2024-01-01T10:00:00''
                           then Inr \<lparr>wall = 1704103200000000, utcoffset = None\<rparr>
                           else Inl ''Invalid isoformat string''),
     utc_now = 1704103200000000, local_utcoffset = 0,
     current_timestamp = ''2024-01-01 10:00:00''\<rparr>"

definition ex_cat :: upload where
  "ex_cat = \<lparr>filename = ''cat.png'', file_data = ''PNG''\<rparr>"

section \<open>What one pass changes\<close>

lemma map_tweet_id_mark_as_posted: "map tweet_id (mark_as_posted tid tws) = map tweet_id tws"
  by (induction tws) (auto simp: mark_as_posted_def)

lemma rows_mark_as_posted:
  "filter (\<lambda>r. tweet_id r = i) (mark_as_posted tid tws) =
     (if i = tid then map (\<lambda>r. r\<lparr>posted := 1\<rparr>) (filter (\<lambda>r. tweet_id r = i) tws)
      else filter (\<lambda>r. tweet_id r = i) tws)"
  by (induction tws) (auto simp: mark_as_posted_def)

lemma try_post_db:
  "db (except_Exception (try_post cl w fs row st)) = db st
   \<or> db (except_Exception (try_post cl w fs row st)) = mark_as_posted (tweet_id row) (db st)"
  by (auto simp: try_post_def except_Exception_def Let_def split: prod.splits sum.splits)

lemma try_post_calls:
  "\<exists>new. calls (except_Exception (try_post cl w fs row st)) = calls st @ map (Pair (tweet_id row)) new"
proof (cases "length (content row) \<le> 280")
  case True
  obtain media_ids ups where rm: "resolve_media w fs (image_paths_col row) = (media_ids, ups)"
    by (cases "resolve_media w fs (image_paths_col row)")
  obtain call response where ct: "create_tweet cl (content row) media_ids = (call, response)"
    by (cases "create_tweet cl (content row) media_ids")
  have "calls (except_Exception (try_post cl w fs row st))
          = calls st @ map (Pair (tweet_id row)) (ups @ [call])"
    using True rm ct by (cases response) (simp_all add: try_post_def except_Exception_def)
  then show ?thesis by blast
next
  case False
  then have "calls (except_Exception (try_post cl w fs row st)) = calls st @ map (Pair (tweet_id row)) []"
    by (simp add: try_post_def except_Exception_def)
  then show ?thesis by blast
qed

lemma post_one_db:
  "db (post_one w fs st row) = db st \<or> db (post_one w fs st row) = mark_as_posted (tweet_id row) (db st)"
  using try_post_db by (auto simp: post_one_def split: option.splits)

lemma post_one_calls:
  "\<exists>new. calls (post_one w fs st row) = calls st @ map (Pair (tweet_id row)) new"
proof (cases "client w")
  case None
  then have "calls (post_one w fs st row) = calls st @ map (Pair (tweet_id row)) []"
    by (simp add: post_one_def)
  then show ?thesis by blast
next
  case (Some cl)
  then show ?thesis using try_post_calls [of cl w fs row st] by (simp add: post_one_def)
qed

lemma post_one_ids: "map tweet_id (db (post_one w fs st row)) = map tweet_id (db st)"
  using post_one_db [of w fs st row] by (auto simp: map_tweet_id_mark_as_posted)

lemma post_one_rows_other:
  "tweet_id row \<noteq> i \<Longrightarrow>
   filter (\<lambda>r. tweet_id r = i) (db (post_one w fs st row)) = filter (\<lambda>r. tweet_id r = i) (db st)"
  using post_one_db [of w fs st row] by (auto simp: rows_mark_as_posted)

lemma post_one_calls_other:
  "tweet_id row \<noteq> i \<Longrightarrow>
   filter (\<lambda>p. fst p = i) (calls (post_one w fs st row)) = filter (\<lambda>p. fst p = i) (calls st)"
proof -
  assume ne: "tweet_id row \<noteq> i"
  obtain new where "calls (post_one w fs st row) = calls st @ map (Pair (tweet_id row)) new"
    using post_one_calls by blast
  moreover have "filter (\<lambda>p. fst p = i) (map (Pair (tweet_id row)) new) = []"
    using ne by (induction new) auto
  ultimately show ?thesis by simp
qed

lemma foldl_post_one_other:
  "i \<notin> tweet_id ` set rows \<Longrightarrow>
   filter (\<lambda>r. tweet_id r = i) (db (foldl (post_one w fs) st rows)) = filter (\<lambda>r. tweet_id r = i) (db st)
   \<and> filter (\<lambda>p. fst p = i) (calls (foldl (post_one w fs) st rows)) = filter (\<lambda>p. fst p = i) (calls st)"
proof (induction rows arbitrary: st)
  case Nil
  then show ?case by simp
next
  case (Cons a rows)
  then have "tweet_id a \<noteq> i" and "i \<notin> tweet_id ` set rows" by auto
  then show ?case
    using Cons.IH [of "post_one w fs st a"] post_one_rows_other [of a i w fs st]
      post_one_calls_other [of a i w fs st]
    by simp
qed

lemma foldl_post_one_ids: "map tweet_id (db (foldl (post_one w fs) st rows)) = map tweet_id (db st)"
  by (induction rows arbitrary: st) (auto simp: post_one_ids)

lemma distinct_rows_single:
  "distinct (map tweet_id tws) \<Longrightarrow> r \<in> set tws \<Longrightarrow> filter (\<lambda>x. tweet_id x = tweet_id r) tws = [r]"
proof (induction tws)
  case Nil
  then show ?case by simp
next
  case (Cons a tws)
  show ?case
  proof (cases "a = r")
    case True
    then have "tweet_id r \<notin> tweet_id ` set tws" using Cons.prems by auto
    then have "\<forall>x \<in> set tws. tweet_id x \<noteq> tweet_id r"
      by (metis imageI)
    then have "filter (\<lambda>x. tweet_id x = tweet_id r) tws = []"
      by (simp add: filter_empty_conv)
    with True show ?thesis by simp
  next
    case False
    then have "r \<in> set tws" using Cons.prems by auto
    then have "tweet_id a \<noteq> tweet_id r" using Cons.prems by force
    then show ?thesis using Cons \<open>r \<in> set tws\<close> by simp
  qed
qed

lemma due_split:
  assumes "distinct (map tweet_id tws)" and "r \<in> set (tweets_to_post now tws)"
  shows "\<exists>xs ys. tweets_to_post now tws = xs @ r # ys
           \<and> tweet_id r \<notin> tweet_id ` set xs \<and> tweet_id r \<notin> tweet_id ` set ys"
proof -
  have d: "distinct (map tweet_id (tweets_to_post now tws))"
    using assms(1) by (simp add: tweets_to_post_def distinct_map_filter)
  obtain xs ys where s: "tweets_to_post now tws = xs @ r # ys"
    using assms(2) by (meson split_list)
  from d s have "tweet_id r \<notin> tweet_id ` set xs \<and> tweet_id r \<notin> tweet_id ` set ys"
    by auto
  with s show ?thesis by blast
qed

text \<open>What a pass does to a due row, reduced to the one step that handles it.\<close>

lemma pass_on_due:
  assumes d: "distinct (map tweet_id (db st))"
    and r: "r \<in> set (tweets_to_post now (db st))"
  shows "\<exists>st0. filter (\<lambda>x. tweet_id x = tweet_id r) (db st0) = [r]
           \<and> filter (\<lambda>p. fst p = tweet_id r) (calls st0) = filter (\<lambda>p. fst p = tweet_id r) (calls st)
           \<and> filter (\<lambda>x. tweet_id x = tweet_id r) (db (foldl (post_one w fs) st (tweets_to_post now (db st))))
               = filter (\<lambda>x. tweet_id x = tweet_id r) (db (post_one w fs st0 r))
           \<and> filter (\<lambda>p. fst p = tweet_id r) (calls (foldl (post_one w fs) st (tweets_to_post now (db st))))
               = filter (\<lambda>p. fst p = tweet_id r) (calls (post_one w fs st0 r))"
proof -
  obtain xs ys where s: "tweets_to_post now (db st) = xs @ r # ys"
    and nx: "tweet_id r \<notin> tweet_id ` set xs" and ny: "tweet_id r \<notin> tweet_id ` set ys"
    using due_split [OF d r] by blast
  define st0 where "st0 = foldl (post_one w fs) st xs"
  have rin: "r \<in> set (db st)" using r by (simp add: tweets_to_post_def)
  have a: "filter (\<lambda>x. tweet_id x = tweet_id r) (db st0) = [r]"
    using foldl_post_one_other [OF nx, of w fs st] distinct_rows_single [OF d rin]
    by (simp add: st0_def)
  have b: "filter (\<lambda>p. fst p = tweet_id r) (calls st0) = filter (\<lambda>p. fst p = tweet_id r) (calls st)"
    using foldl_post_one_other [OF nx, of w fs st] by (simp add: st0_def)
  have f: "foldl (post_one w fs) st (tweets_to_post now (db st))
             = foldl (post_one w fs) (post_one w fs st0 r) ys"
    by (simp add: s st0_def)
  show ?thesis
    using a b foldl_post_one_other [OF ny, of w fs "post_one w fs st0 r"] unfolding f by blast
qed

subsection \<open>The cases of one row, and the passes that follow\<close>

lemma filter_single_mem:
  assumes "filter P xs = [y]" and "x \<in> set xs" and "P x"
  shows "x = y"
proof -
  have "x \<in> set (filter P xs)" using assms(2,3) by simp
  then show ?thesis unfolding assms(1) by simp
qed

lemma post_one_unconfigured: "client w = None \<Longrightarrow> post_one w fs st r = st"
  by (simp add: post_one_def)

lemma post_one_oversized:
  "client w = Some cl \<Longrightarrow> 280 < length (content r) \<Longrightarrow>
   post_one w fs st r = st\<lparr>db := mark_as_posted (tweet_id r) (db st)\<rparr>"
  by (simp add: post_one_def try_post_def except_Exception_def)

lemma post_one_publish:
  assumes "client w = Some cl" and "length (content r) \<le> 280"
  shows "post_one w fs st r =
           (let media = resolve_media w fs (image_paths_col r);
                sent = create_tweet cl (content r) (fst media);
                st1 = st\<lparr>calls := calls st @ map (Pair (tweet_id r)) (snd media @ [fst sent])\<rparr>
            in case snd sent of
                 Inl e \<Rightarrow> st1
               | Inr tweet \<Rightarrow> st1\<lparr>db := mark_as_posted (tweet_id r) (db st)\<rparr>)"
  using assms
  by (simp add: post_one_def try_post_def except_Exception_def Let_def split: prod.splits sum.splits)

lemma tick_read_ok:
  "store_read_error w = None \<Longrightarrow>
   tick w fs now st = foldl (post_one w fs) st (tweets_to_post now (db st))"
  by (simp add: tick_def scan_and_post_def except_Exception_def)

lemma tick_read_fails: "store_read_error w = Some e \<Longrightarrow> tick w fs now st = st"
  by (simp add: tick_def scan_and_post_def except_Exception_def)





subsection \<open>Uploads\<close>

lemma upload_each_eq:
  "upload_each api fs ps ids cs =
     (ids @ concat (map (\<lambda>p. case api p of Inl e \<Rightarrow> [] | Inr m \<Rightarrow> [m])
               (filter (\<lambda>p. fs p \<noteq> None) (map (path_join UPLOAD_FOLDER) ps))),
      cs @ map MediaUpload (filter (\<lambda>p. fs p \<noteq> None) (map (path_join UPLOAD_FOLDER) ps)))"
proof (induction ps arbitrary: ids cs)
  case Nil
  then show ?case by simp
next
  case (Cons p ps)
  show ?case
  proof (cases "fs (path_join UPLOAD_FOLDER p) = None")
    case True
    then show ?thesis using Cons.IH by simp
  next
    case False
    then show ?thesis using Cons.IH
      by (cases "api (path_join UPLOAD_FOLDER p)") (simp_all add: Let_def)
  qed
qed

lemma upload_media_configured:
  "api_v1 w = Some api \<Longrightarrow>
   upload_media_to_twitter w fs image_paths =
     (concat (map (\<lambda>p. case api p of Inl e \<Rightarrow> [] | Inr m \<Rightarrow> [m])
        (filter (\<lambda>p. fs p \<noteq> None) (map (path_join UPLOAD_FOLDER) image_paths))),
      map MediaUpload (filter (\<lambda>p. fs p \<noteq> None) (map (path_join UPLOAD_FOLDER) image_paths)))"
  by (simp add: upload_media_to_twitter_def upload_each_eq)

lemma upload_media_unconfigured:
  "api_v1 w = None \<Longrightarrow> upload_media_to_twitter w fs image_paths = ([], [])"
  by (simp add: upload_media_to_twitter_def)

lemma text_only_posted:
  assumes "distinct (map tweet_id (db st))"
    and "client w = Some cl" and "store_read_error w = None"
    and "r \<in> set (tweets_to_post now (db st))" and "length (content r) \<le> 280"
    and "\<not> truthy (fst (resolve_media w fs (image_paths_col r)))"
    and "cl (content r) None = Inr tw"
  shows "filter (\<lambda>x. tweet_id x = tweet_id r) (db (tick w fs now st)) = [r\<lparr>posted := 1\<rparr>]
       \<and> filter (\<lambda>p. fst p = tweet_id r) (calls (tick w fs now st))
           = filter (\<lambda>p. fst p = tweet_id r) (calls st)
             @ map (Pair (tweet_id r))
                 (snd (resolve_media w fs (image_paths_col r)) @ [CreateTweet (content r) None])"
proof -
  let ?k = "tweet_id r"
  let ?st1 = "tick w fs now st"
  obtain st0 where rows0: "filter (\<lambda>x. tweet_id x = ?k) (db st0) = [r]"
    and calls0: "filter (\<lambda>p. fst p = ?k) (calls st0) = filter (\<lambda>p. fst p = ?k) (calls st)"
    and rows1: "filter (\<lambda>x. tweet_id x = ?k) (db ?st1)
                  = filter (\<lambda>x. tweet_id x = ?k) (db (post_one w fs st0 r))"
    and calls1: "filter (\<lambda>p. fst p = ?k) (calls ?st1)
                  = filter (\<lambda>p. fst p = ?k) (calls (post_one w fs st0 r))"
    using pass_on_due [OF assms(1) assms(4), of w fs] assms(3) by (auto simp: tick_read_ok)
  have sent: "create_tweet cl (content r) (fst (resolve_media w fs (image_paths_col r)))
                = (CreateTweet (content r) None, Inr tw)"
    using assms(6,7) by (simp add: create_tweet_def)
  have one: "post_one w fs st0 r =
      st0\<lparr>calls := calls st0 @ map (Pair ?k)
             (snd (resolve_media w fs (image_paths_col r)) @ [CreateTweet (content r) None]),
          db := mark_as_posted ?k (db st0)\<rparr>"
    by (simp add: post_one_publish [OF assms(2) assms(5)] Let_def sent)
  have tagged: "filter (\<lambda>p. fst p = ?k) (map (Pair ?k) xs) = map (Pair ?k) xs" for xs :: "event list"
    by (induction xs) auto
  have a: "filter (\<lambda>x. tweet_id x = ?k) (db ?st1) = [r\<lparr>posted := 1\<rparr>]"
    using rows1 rows0 by (simp add: one rows_mark_as_posted)
  have b: "filter (\<lambda>p. fst p = ?k) (calls ?st1)
           = filter (\<lambda>p. fst p = ?k) (calls st)
             @ map (Pair ?k) (snd (resolve_media w fs (image_paths_col r)) @ [CreateTweet (content r) None])"
    using calls1 calls0 tagged by (simp add: one)
  from a b show ?thesis by simp
qed

subsection \<open>The example run\<close>

lemma ex_due: "tweets_to_post ex_now (db ex_state) = [ex_hello, ex_long, ex_gone]"
  by (simp add: tweets_to_post_def ex_state_def ex_long_def ex_hello_def ex_gone_def ex_now_def)

lemma ex_order: "ex_now \<le> ex_later"
  by (simp add: ex_now_def ex_later_def)

lemma ex_distinct: "distinct (map tweet_id (db ex_state))"
  by (simp add: ex_state_def ex_long_def ex_hello_def ex_gone_def)

lemma ex_long_len: "280 < length (content ex_long)"
  by (simp add: ex_long_def)

lemma ex_hello_len: "length (content ex_hello) \<le> 280"
  by (simp add: ex_hello_def)

subsection \<open>A due row, handled on its own\<close>

lemma tagged_filter: "filter (\<lambda>p. fst p = k) (map (Pair k) xs) = map (Pair k) xs"
  by (induction xs) auto

lemma post_one_alone:
  assumes "filter (\<lambda>x. tweet_id x = tweet_id r) (db st0) = [r]"
  shows "filter (\<lambda>x. tweet_id x = tweet_id r) (db (post_one w fs st0 r))
           = db (post_one w fs \<lparr>db = [r], calls = []\<rparr> r)
         \<and> filter (\<lambda>p. fst p = tweet_id r) (calls (post_one w fs st0 r))
           = filter (\<lambda>p. fst p = tweet_id r) (calls st0) @ calls (post_one w fs \<lparr>db = [r], calls = []\<rparr> r)"
proof (cases "client w")
  case None
  then show ?thesis using assms by (simp add: post_one_unconfigured)
next
  case (Some cl)
  have m: "mark_as_posted (tweet_id r) [r] = [r\<lparr>posted := 1\<rparr>]"
    by (simp add: mark_as_posted_def)
  show ?thesis
  proof (cases "length (content r) \<le> 280")
    case True
    show ?thesis
      using assms
      by (cases "snd (create_tweet cl (content r) (fst (resolve_media w fs (image_paths_col r))))")
         (simp_all add: post_one_publish [OF Some True] Let_def rows_mark_as_posted m tagged_filter)
  next
    case False
    then have "280 < length (content r)" by simp
    then show ?thesis
      using assms by (simp add: post_one_oversized [OF Some] rows_mark_as_posted m)
  qed
qed

lemma tick_on_due:
  assumes "distinct (map tweet_id (db st))" and "store_read_error w = None"
    and "r \<in> set (tweets_to_post now (db st))"
  shows "filter (\<lambda>x. tweet_id x = tweet_id r) (db (tick w fs now st))
           = db (post_one w fs \<lparr>db = [r], calls = []\<rparr> r)
       \<and> filter (\<lambda>p. fst p = tweet_id r) (calls (tick w fs now st))
           = filter (\<lambda>p. fst p = tweet_id r) (calls st) @ calls (post_one w fs \<lparr>db = [r], calls = []\<rparr> r)"
proof -
  let ?k = "tweet_id r"
  let ?st1 = "tick w fs now st"
  obtain st0 where rows0: "filter (\<lambda>x. tweet_id x = ?k) (db st0) = [r]"
    and calls0: "filter (\<lambda>p. fst p = ?k) (calls st0) = filter (\<lambda>p. fst p = ?k) (calls st)"
    and rows1: "filter (\<lambda>x. tweet_id x = ?k) (db ?st1)
                  = filter (\<lambda>x. tweet_id x = ?k) (db (post_one w fs st0 r))"
    and calls1: "filter (\<lambda>p. fst p = ?k) (calls ?st1)
                  = filter (\<lambda>p. fst p = ?k) (calls (post_one w fs st0 r))"
    using pass_on_due [OF assms(1) assms(3), of w fs] assms(2) by (auto simp: tick_read_ok)
  show ?thesis
    using rows1 calls1 calls0 post_one_alone [OF rows0, of w fs] by simp
qed

lemma post_one_alone_delivered:
  assumes "client w = Some cl" and "length (content r) \<le> 280"
    and "snd (create_tweet cl (content r) (fst (resolve_media w fs (image_paths_col r)))) = Inr tw"
  shows "db (post_one w fs \<lparr>db = [r], calls = []\<rparr> r) = [r\<lparr>posted := 1\<rparr>]"
  using assms(3) by (simp add: post_one_publish [OF assms(1,2)] Let_def mark_as_posted_def)

lemma post_one_alone_oversized:
  assumes "client w = Some cl" and "280 < length (content r)"
  shows "db (post_one w fs \<lparr>db = [r], calls = []\<rparr> r) = [r\<lparr>posted := 1\<rparr>]"
  by (simp add: post_one_oversized [OF assms] mark_as_posted_def)

subsection \<open>The calls that are made\<close>













lemma ex_tick_ok:
  "tick ex_ok ex_files ex_now ex_state
     = \<lparr>db = [ex_hello\<lparr>posted := 1\<rparr>, ex_long\<lparr>posted := 1\<rparr>, ex_gone\<lparr>posted := 1\<rparr>],
        calls = [(2, MediaUpload ''uploads/a.png''), (2, CreateTweet ''Hello'' (Some [7])),
                 (3, CreateTweet ''Pic'' None)]\<rparr>"
proof -
  have c: "client ex_ok = Some (\<lambda>t m. Inr ''999'')" and s: "store_read_error ex_ok = None"
    and a: "api_v1 ex_ok = Some (\<lambda>p. Inr 7)"
    by (simp_all add: ex_ok_def)
  have l: "length (content ex_gone) \<le> 280"
    by (simp add: ex_gone_def)
  have res: "resolve_media ex_ok ex_files (image_paths_col ex_gone) = (Some [], [])"
    by (simp add: resolve_media_def parse_image_paths_def ex_gone_def upload_media_to_twitter_def
        a ex_files_def path_join_def UPLOAD_FOLDER_def)
  have resh: "resolve_media ex_ok ex_files (image_paths_col ex_hello)
                = (Some [7], [MediaUpload ''uploads/a.png''])"
    by (simp add: resolve_media_def parse_image_paths_def ex_hello_def upload_media_to_twitter_def
        a ex_files_def path_join_def UPLOAD_FOLDER_def)
  show ?thesis
    apply (simp add: tick_read_ok [OF s] ex_due)
    apply (simp add: post_one_publish [OF c ex_hello_len] post_one_publish [OF c l]
        post_one_oversized [OF c ex_long_len] res resh create_tweet_def truthy_def)
    apply (simp add: ex_state_def mark_as_posted_def ex_hello_def ex_long_def ex_gone_def)
    done
qed

subsection \<open>The listing\<close>

lemma set_get_tweets: "set (get_tweets tws) \<subseteq> tweet_dict ` set tws"
proof -
  have "set (take 50 (rev (sort_key scheduled_time (rev tws)))) \<subseteq> set tws"
    using set_take_subset [of 50 "rev (sort_key scheduled_time (rev tws))"] by simp
  then show ?thesis by (auto simp: get_tweets_def)
qed

lemma get_tweets_all: "length tws \<le> 50 \<Longrightarrow> set (get_tweets tws) = tweet_dict ` set tws"
  by (simp add: get_tweets_def)

lemma tick_ids: "map tweet_id (db (tick w fs now st)) = map tweet_id (db st)"
  by (cases "store_read_error w") (simp_all add: tick_read_ok tick_read_fails foldl_post_one_ids)

lemma tick_length: "length (db (tick w fs now st)) = length (db st)"
  using tick_ids [of w fs now st] by (metis length_map)

lemma listed_row:
  assumes "filter (\<lambda>x. tweet_id x = k) tws = [y]"
  shows "\<forall>j \<in> set (get_tweets tws). json_id j = k \<longrightarrow> j = tweet_dict y"
proof
  fix j assume "j \<in> set (get_tweets tws)"
  then obtain x where x: "x \<in> set tws" and j: "j = tweet_dict x"
    using set_get_tweets by blast
  show "json_id j = k \<longrightarrow> j = tweet_dict y"
  proof
    assume "json_id j = k"
    then have "tweet_id x = k" by (simp add: j tweet_dict_def)
    then have "x = y" using filter_single_mem [OF assms x] by simp
    then show "j = tweet_dict y" by (simp add: j)
  qed
qed

lemma row_listed:
  assumes "filter (\<lambda>x. tweet_id x = k) tws = [y]" and "length tws \<le> 50"
  shows "tweet_dict y \<in> set (get_tweets tws)"
proof -
  have "y \<in> set (filter (\<lambda>x. tweet_id x = k) tws)" using assms(1) by simp
  then have "y \<in> set tws" by simp
  then show ?thesis using get_tweets_all [OF assms(2)] by simp
qed

subsection \<open>The files of a form, and what a submission is answered\<close>

lemma save_images_length:
  "length (snd (save_images env i ups fs acc)) = length acc + length (filter (\<lambda>f. filename f \<noteq> []) ups)"
  by (induction ups arbitrary: i fs acc) (simp_all add: Let_def)

lemma save_images_dom: "dom fs \<subseteq> dom (fst (save_images env i ups fs acc))"
proof (induction ups arbitrary: i fs acc)
  case Nil
  then show ?case by simp
next
  case (Cons f ups)
  show ?case
  proof (cases "filename f = []")
    case True
    then show ?thesis using Cons.IH by simp
  next
    case False
    let ?p = "path_join UPLOAD_FOLDER (strftime_now env i @ secure_filename env (filename f))"
    have "dom fs \<subseteq> dom (fs(?p \<mapsto> file_data f))" by auto
    also have "\<dots> \<subseteq> dom (fst (save_images env (Suc i) ups (fs(?p \<mapsto> file_data f))
                 (acc @ [strftime_now env i @ secure_filename env (filename f)])))"
      by (rule Cons.IH)
    finally show ?thesis using False by (simp add: Let_def)
  qed
qed

lemma save_images_stored:
  "path_join UPLOAD_FOLDER ` set acc \<subseteq> dom fs \<Longrightarrow>
   path_join UPLOAD_FOLDER ` set (snd (save_images env i ups fs acc))
     \<subseteq> dom (fst (save_images env i ups fs acc))"
proof (induction ups arbitrary: i fs acc)
  case Nil
  then show ?case by simp
next
  case (Cons f ups)
  show ?case
  proof (cases "filename f = []")
    case True
    then show ?thesis using Cons.IH [OF Cons.prems] by simp
  next
    case False
    let ?n = "strftime_now env i @ secure_filename env (filename f)"
    let ?p = "path_join UPLOAD_FOLDER ?n"
    have "path_join UPLOAD_FOLDER ` set (acc @ [?n]) \<subseteq> dom (fs(?p \<mapsto> file_data f))"
      using Cons.prems by auto
    then have "path_join UPLOAD_FOLDER ` set (snd (save_images env (Suc i) ups (fs(?p \<mapsto> file_data f)) (acc @ [?n])))
                 \<subseteq> dom (fst (save_images env (Suc i) ups (fs(?p \<mapsto> file_data f)) (acc @ [?n])))"
      by (rule Cons.IH)
    moreover have "save_images env i (f # ups) fs acc
                     = save_images env (Suc i) ups (fs(?p \<mapsto> file_data f)) (acc @ [?n])"
      using False by (simp add: Let_def)
    ultimately show ?thesis by (simp only:)
  qed
qed

lemma read_request_form:
  "read_request env (Form c t ups) fs
     = (c, t, snd (save_images env 0 ups fs []), fst (save_images env 0 ups fs []))"
  by (simp add: read_request_def split: prod.splits)

text \<open>What \<open>schedule_tweet\<close> answers, by the tests it makes in order.\<close>

lemma schedule_tweet_outcome:
  assumes "read_request env req fs = (c, t, image_paths, fs')"
  shows "schedule_tweet env req (tws, fs) =
     (if strip c = [] then (Error_response 400 ''Tweet content is required'', tws, fs')
      else if t = [] then (Error_response 400 ''Scheduled time is required'', tws, fs')
      else if 4 < length image_paths then (Error_response 400 ''Maximum 4 images allowed'', tws, fs')
      else case fromisoformat env (replace_Z t) of
             Inl msg \<Rightarrow> (Error_response 400 msg, tws, fs')
           | Inr d \<Rightarrow>
               (case datetime_less d (datetime_now env (utcoffset d)) of
                  Inl msg \<Rightarrow> (Error_response 400 msg, tws, fs')
                | Inr past \<Rightarrow>
                    if past then (Error_response 400 ''Scheduled time must be in the future'', tws, fs')
                    else (Scheduled (lastrowid tws),
                          tws @ [\<lparr>tweet_id = lastrowid tws, content = strip c, scheduled_time = t,
                                   posted = 0,
                                   image_paths_col = (if image_paths \<noteq> [] then JsonText image_paths else Null),
                                   created_at = current_timestamp env\<rparr>],
                          fs')))"
  using assms by (simp add: schedule_tweet_def Let_def split: sum.splits bool.splits)

lemma schedule_tweet_files:
  "snd (snd (schedule_tweet env (Form c t ups) (tws, fs))) = fst (save_images env 0 ups fs [])"
  by (simp add: schedule_tweet_outcome [OF read_request_form] split: sum.splits)

lemma datetime_less_same_zone:
  "datetime_less d (datetime_now env (utcoffset d)) = Inr (wall d - (case utcoffset d of None \<Rightarrow> local_utcoffset env | Some off \<Rightarrow> off) < utc_now env)"
  by (cases "utcoffset d") (auto simp: datetime_less_def datetime_now_def)

section \<open>The rows the scheduler selects\<close>


section \<open>Tweets that are too long\<close>




section \<open>A publish that fails\<close>

text \<open>
  C4. When the pass has read its due rows and the call that publishes a due row raises,
  the pass leaves that row exactly as it was, still pending, and the query of any later
  time selects it again.
\<close>

theorem failed_publish_stays_pending:
  assumes "distinct (map tweet_id (db st))"
    and "client w = Some cl" and "store_read_error w = None"
    and "r \<in> set (tweets_to_post now (db st))" and "length (content r) \<le> 280"
    and "snd (create_tweet cl (content r) (fst (resolve_media w fs (image_paths_col r)))) = Inl e"
    and "now \<le> now'"
  shows "filter (\<lambda>x. tweet_id x = tweet_id r) (db (tick w fs now st)) = [r]
       \<and> posted r = 0
       \<and> r \<in> set (tweets_to_post now' (db (tick w fs now st)))"
proof -
  let ?k = "tweet_id r"
  let ?st1 = "tick w fs now st"
  obtain st0 where rows0: "filter (\<lambda>x. tweet_id x = ?k) (db st0) = [r]"
    and rows1: "filter (\<lambda>x. tweet_id x = ?k) (db ?st1)
                  = filter (\<lambda>x. tweet_id x = ?k) (db (post_one w fs st0 r))"
    using pass_on_due [OF assms(1) assms(4), of w fs] assms(3) by (auto simp: tick_read_ok)
  have "db (post_one w fs st0 r) = db st0"
    using assms(6) by (simp add: post_one_publish [OF assms(2) assms(5)] Let_def)
  then have a: "filter (\<lambda>x. tweet_id x = ?k) (db ?st1) = [r]"
    using rows1 rows0 by simp
  have due: "posted r = 0 \<and> scheduled_time r \<le> now"
    using assms(4) by (simp add: tweets_to_post_def)
  have "r \<in> set (filter (\<lambda>x. tweet_id x = ?k) (db ?st1))"
    using a by simp
  then have "r \<in> set (db ?st1)" by simp
  then have "r \<in> set (tweets_to_post now' (db ?st1))"
    using due assms(7) by (auto simp: tweets_to_post_def)
  with a due show ?thesis by simp
qed

theorem failed_publish_stays_pending_witness:
  "distinct (map tweet_id (db ex_state)) \<and> client ex_down \<noteq> None \<and> store_read_error ex_down = None
   \<and> ex_hello \<in> set (tweets_to_post ex_now (db ex_state)) \<and> length (content ex_hello) \<le> 280
   \<and> snd (create_tweet (\<lambda>t m. Inl (TweepyException ''503'')) (content ex_hello)
        (fst (resolve_media ex_down ex_files (image_paths_col ex_hello)))) = Inl (TweepyException ''503'')
   \<and> ex_now \<le> ex_later
   \<and> filter (\<lambda>x. tweet_id x = tweet_id ex_hello) (db (tick ex_down ex_files ex_now ex_state)) = [ex_hello]
   \<and> posted ex_hello = 0
   \<and> ex_hello \<in> set (tweets_to_post ex_later (db (tick ex_down ex_files ex_now ex_state)))"
proof -
  have c: "client ex_down = Some (\<lambda>t m. Inl (TweepyException ''503''))"
    and s: "store_read_error ex_down = None"
    by (simp_all add: ex_down_def)
  have d: "ex_hello \<in> set (tweets_to_post ex_now (db ex_state))"
    by (simp add: ex_due)
  have f: "snd (create_tweet (\<lambda>t m. Inl (TweepyException ''503'')) (content ex_hello)
        (fst (resolve_media ex_down ex_files (image_paths_col ex_hello)))) = Inl (TweepyException ''503'')"
    by (simp add: create_tweet_def)
  show ?thesis
    using failed_publish_stays_pending [OF ex_distinct c s d ex_hello_len f ex_order] c s d f
      ex_distinct ex_hello_len ex_order
    by simp
qed

section \<open>Resolving media\<close>

text \<open>
  C5, as the code has it. With a media client, \<open>upload_media_to_twitter\<close> tries every
  reference whose file is stored, in order, skips the references whose file is missing,
  and returns the handles of the uploads that did not raise; without a media client it
  tries nothing and returns no handle. And a due row of at most 280 characters for which
  no handle was obtained is published with no media argument and, when that call
  succeeds, marked as posted.
\<close>

theorem resolver_skips_and_text_only:
  "upload_media_to_twitter w fs image_paths =
     (case api_v1 w of
        None \<Rightarrow> ([], [])
      | Some api \<Rightarrow>
          (concat (map (\<lambda>p. case api p of Inl e \<Rightarrow> [] | Inr m \<Rightarrow> [m])
             (filter (\<lambda>p. fs p \<noteq> None) (map (path_join UPLOAD_FOLDER) image_paths))),
           map MediaUpload (filter (\<lambda>p. fs p \<noteq> None) (map (path_join UPLOAD_FOLDER) image_paths))))
   \<and> (distinct (map tweet_id (db st)) \<and> client w = Some cl \<and> store_read_error w = None
        \<and> r \<in> set (tweets_to_post now (db st)) \<and> length (content r) \<le> 280
        \<and> \<not> truthy (fst (resolve_media w fs (image_paths_col r)))
        \<and> cl (content r) None = Inr tw \<longrightarrow>
      filter (\<lambda>x. tweet_id x = tweet_id r) (db (tick w fs now st)) = [r\<lparr>posted := 1\<rparr>]
      \<and> filter (\<lambda>p. fst p = tweet_id r) (calls (tick w fs now st))
           = filter (\<lambda>p. fst p = tweet_id r) (calls st)
             @ map (Pair (tweet_id r))
                 (snd (resolve_media w fs (image_paths_col r)) @ [CreateTweet (content r) None]))"
proof -
  have "upload_media_to_twitter w fs image_paths =
     (case api_v1 w of
        None \<Rightarrow> ([], [])
      | Some api \<Rightarrow>
          (concat (map (\<lambda>p. case api p of Inl e \<Rightarrow> [] | Inr m \<Rightarrow> [m])
             (filter (\<lambda>p. fs p \<noteq> None) (map (path_join UPLOAD_FOLDER) image_paths))),
           map MediaUpload (filter (\<lambda>p. fs p \<noteq> None) (map (path_join UPLOAD_FOLDER) image_paths))))"
    by (cases "api_v1 w") (simp_all add: upload_media_unconfigured upload_media_configured)
  then show ?thesis
    using text_only_posted [of st w cl r now fs tw] by blast
qed

theorem resolver_skips_and_text_only_witness:
  "upload_media_to_twitter ex_ok ex_files [''gone.png'', ''a.png'']
     = ([7], [MediaUpload ''uploads/a.png''])
   \<and> distinct (map tweet_id (db ex_state)) \<and> client ex_ok \<noteq> None \<and> store_read_error ex_ok = None
   \<and> ex_gone \<in> set (tweets_to_post ex_now (db ex_state)) \<and> length (content ex_gone) \<le> 280
   \<and> \<not> truthy (fst (resolve_media ex_ok ex_files (image_paths_col ex_gone)))
   \<and> filter (\<lambda>x. tweet_id x = tweet_id ex_gone) (db (tick ex_ok ex_files ex_now ex_state))
        = [ex_gone\<lparr>posted := 1\<rparr>]
   \<and> filter (\<lambda>p. fst p = tweet_id ex_gone) (calls (tick ex_ok ex_files ex_now ex_state))
        = [(3, CreateTweet ''Pic'' None)]"
proof -
  have c: "client ex_ok = Some (\<lambda>t m. Inr ''999'')" and s: "store_read_error ex_ok = None"
    and a: "api_v1 ex_ok = Some (\<lambda>p. Inr 7)"
    by (simp_all add: ex_ok_def)
  have d: "ex_gone \<in> set (tweets_to_post ex_now (db ex_state))"
    by (simp add: ex_due)
  have l: "length (content ex_gone) \<le> 280"
    by (simp add: ex_gone_def)
  have res: "resolve_media ex_ok ex_files (image_paths_col ex_gone) = (Some [], [])"
    by (simp add: resolve_media_def parse_image_paths_def ex_gone_def upload_media_to_twitter_def
        a ex_files_def path_join_def UPLOAD_FOLDER_def)
  have t: "\<not> truthy (fst (resolve_media ex_ok ex_files (image_paths_col ex_gone)))"
    by (simp add: res truthy_def)
  have p: "(\<lambda>t m. Inr ''999'' :: error + string) (content ex_gone) None = Inr ''999''"
    by simp
  have up: "upload_media_to_twitter ex_ok ex_files [''gone.png'', ''a.png'']
     = ([7], [MediaUpload ''uploads/a.png''])"
    using resolver_skips_and_text_only [of ex_ok ex_files "[''gone.png'', ''a.png'']"]
    by (simp add: a ex_files_def path_join_def UPLOAD_FOLDER_def)
  have "filter (\<lambda>p. fst p = tweet_id ex_gone) (calls ex_state) = []"
    by (simp add: ex_state_def)
  then have "filter (\<lambda>x. tweet_id x = tweet_id ex_gone) (db (tick ex_ok ex_files ex_now ex_state))
        = [ex_gone\<lparr>posted := 1\<rparr>]
   \<and> filter (\<lambda>p. fst p = tweet_id ex_gone) (calls (tick ex_ok ex_files ex_now ex_state))
        = [(3, CreateTweet ''Pic'' None)]"
    using resolver_skips_and_text_only [of ex_ok ex_files "[]" ex_state "\<lambda>t m. Inr ''999''"
        ex_gone ex_now "''999''"] ex_distinct c s d l t
    by (simp add: res) (simp add: ex_gone_def)
  then show ?thesis using up ex_distinct c s d l t by simp
qed

text \<open>
  The claim as the specification words it fails when only the media client is missing:
  the file of the reference is stored, yet no upload is tried for it.
\<close>

theorem resolver_no_media_client_counterexample:
  "client ex_no_media \<noteq> None \<and> ex_files (path_join UPLOAD_FOLDER ''a.png'') \<noteq> None
   \<and> upload_media_to_twitter ex_no_media ex_files [''a.png''] = ([], [])"
  by (simp add: ex_no_media_def ex_files_def path_join_def UPLOAD_FOLDER_def
      upload_media_to_twitter_def)

section \<open>The publisher\<close>


section \<open>Marking a row\<close>

text \<open>
  C7. Marking an id a second time leaves the table as the first marking left it: the rows
  of that id stay at \<open>posted = 1\<close>, and the rows of every other id are the rows the table
  had before.
\<close>

theorem mark_as_posted_idempotent:
  "mark_as_posted tid (mark_as_posted tid tws) = mark_as_posted tid tws
   \<and> posted ` set (filter (\<lambda>r. tweet_id r = tid) (mark_as_posted tid tws)) \<subseteq> {1}
   \<and> filter (\<lambda>r. tweet_id r \<noteq> tid) (mark_as_posted tid tws) = filter (\<lambda>r. tweet_id r \<noteq> tid) tws"
proof -
  have a: "mark_as_posted tid (mark_as_posted tid tws) = mark_as_posted tid tws"
    by (induction tws) (simp_all add: mark_as_posted_def)
  have b: "posted ` set (filter (\<lambda>r. tweet_id r = tid) (mark_as_posted tid tws)) \<subseteq> {1}"
    by (induction tws) (auto simp: mark_as_posted_def)
  have c: "filter (\<lambda>r. tweet_id r \<noteq> tid) (mark_as_posted tid tws) = filter (\<lambda>r. tweet_id r \<noteq> tid) tws"
    by (induction tws) (simp_all add: mark_as_posted_def)
  from a b c show ?thesis by simp
qed

section \<open>One row's failure and the other rows\<close>



section \<open>What the listing shows of a skipped tweet\<close>

text \<open>
  C9. A row's delivery state is the one column \<open>posted\<close>. When a pass with a configured
  client has read its due rows, a due row that is too long (skipped for good) and a due
  row that was published both end as the row they were with \<open>posted = 1\<close>, nothing else
  changed; the dictionary the listing builds for either is the row's earlier dictionary
  with \<open>posted\<close> true, every entry of the listing under either id is that dictionary,
  and with at most 50 rows in the table both are listed. So the store and the listing
  tell a skipped tweet from a delivered one in nothing.
\<close>

theorem posted_flag_hides_failure:
  assumes "distinct (map tweet_id (db st))"
    and "client w = Some cl" and "store_read_error w = None"
    and "r1 \<in> set (tweets_to_post now (db st))" and "280 < length (content r1)"
    and "r2 \<in> set (tweets_to_post now (db st))" and "length (content r2) \<le> 280"
    and "snd (create_tweet cl (content r2) (fst (resolve_media w fs (image_paths_col r2)))) = Inr tw"
  shows "filter (\<lambda>x. tweet_id x = tweet_id r1) (db (tick w fs now st)) = [r1\<lparr>posted := 1\<rparr>]
       \<and> filter (\<lambda>x. tweet_id x = tweet_id r2) (db (tick w fs now st)) = [r2\<lparr>posted := 1\<rparr>]
       \<and> tweet_dict (r1\<lparr>posted := 1\<rparr>) = (tweet_dict r1)\<lparr>json_posted := True\<rparr>
       \<and> tweet_dict (r2\<lparr>posted := 1\<rparr>) = (tweet_dict r2)\<lparr>json_posted := True\<rparr>
       \<and> (\<forall>j \<in> set (get_tweets (db (tick w fs now st))).
             (json_id j = tweet_id r1 \<longrightarrow> j = (tweet_dict r1)\<lparr>json_posted := True\<rparr>)
           \<and> (json_id j = tweet_id r2 \<longrightarrow> j = (tweet_dict r2)\<lparr>json_posted := True\<rparr>))
       \<and> (length (db st) \<le> 50 \<longrightarrow>
            (tweet_dict r1)\<lparr>json_posted := True\<rparr> \<in> set (get_tweets (db (tick w fs now st)))
          \<and> (tweet_dict r2)\<lparr>json_posted := True\<rparr> \<in> set (get_tweets (db (tick w fs now st))))"
proof -
  let ?st1 = "tick w fs now st"
  have a: "filter (\<lambda>x. tweet_id x = tweet_id r1) (db ?st1) = [r1\<lparr>posted := 1\<rparr>]"
    using tick_on_due [OF assms(1,3,4), of fs] post_one_alone_oversized [OF assms(2,5), of fs]
    by simp
  have b: "filter (\<lambda>x. tweet_id x = tweet_id r2) (db ?st1) = [r2\<lparr>posted := 1\<rparr>]"
    using tick_on_due [OF assms(1,3,6), of fs] post_one_alone_delivered [OF assms(2,7,8)]
    by simp
  have c: "tweet_dict (r\<lparr>posted := 1\<rparr>) = (tweet_dict r)\<lparr>json_posted := True\<rparr>" for r
    by (simp add: tweet_dict_def)
  have d: "\<forall>j \<in> set (get_tweets (db ?st1)).
             (json_id j = tweet_id r1 \<longrightarrow> j = (tweet_dict r1)\<lparr>json_posted := True\<rparr>)
           \<and> (json_id j = tweet_id r2 \<longrightarrow> j = (tweet_dict r2)\<lparr>json_posted := True\<rparr>)"
    using listed_row [OF a] listed_row [OF b] by (simp add: c)
  have e: "(tweet_dict r1)\<lparr>json_posted := True\<rparr> \<in> set (get_tweets (db ?st1))
          \<and> (tweet_dict r2)\<lparr>json_posted := True\<rparr> \<in> set (get_tweets (db ?st1))"
    if "length (db st) \<le> 50"
  proof -
    have "length (db ?st1) \<le> 50" using that by (simp add: tick_length)
    then show ?thesis using row_listed [OF a] row_listed [OF b] by (simp add: c)
  qed
  from a b c d e show ?thesis by blast
qed

theorem posted_flag_hides_failure_witness:
  "distinct (map tweet_id (db ex_state)) \<and> client ex_ok \<noteq> None \<and> store_read_error ex_ok = None
   \<and> ex_long \<in> set (tweets_to_post ex_now (db ex_state)) \<and> 280 < length (content ex_long)
   \<and> ex_hello \<in> set (tweets_to_post ex_now (db ex_state)) \<and> length (content ex_hello) \<le> 280
   \<and> snd (create_tweet (\<lambda>t m. Inr ''999'') (content ex_hello)
        (fst (resolve_media ex_ok ex_files (image_paths_col ex_hello)))) = (Inr ''999'' :: error + string)
   \<and> length (db ex_state) \<le> 50
   \<and> filter (\<lambda>x. tweet_id x = tweet_id ex_long) (db (tick ex_ok ex_files ex_now ex_state))
       = [ex_long\<lparr>posted := 1\<rparr>]
   \<and> filter (\<lambda>x. tweet_id x = tweet_id ex_hello) (db (tick ex_ok ex_files ex_now ex_state))
       = [ex_hello\<lparr>posted := 1\<rparr>]
   \<and> (tweet_dict ex_long)\<lparr>json_posted := True\<rparr> \<in> set (get_tweets (db (tick ex_ok ex_files ex_now ex_state)))
   \<and> (tweet_dict ex_hello)\<lparr>json_posted := True\<rparr> \<in> set (get_tweets (db (tick ex_ok ex_files ex_now ex_state)))
   \<and> map (\<lambda>j. (json_id j, json_posted j)) (get_tweets (db (tick ex_ok ex_files ex_now ex_state)))
       = [(3, True), (2, True), (1, True)]"
proof -
  have c: "client ex_ok = Some (\<lambda>t m. Inr ''999'')" and s: "store_read_error ex_ok = None"
    by (simp_all add: ex_ok_def)
  have d1: "ex_long \<in> set (tweets_to_post ex_now (db ex_state))"
    and d2: "ex_hello \<in> set (tweets_to_post ex_now (db ex_state))"
    by (simp_all add: ex_due)
  have f: "snd (create_tweet (\<lambda>t m. Inr ''999'') (content ex_hello)
        (fst (resolve_media ex_ok ex_files (image_paths_col ex_hello)))) = (Inr ''999'' :: error + string)"
    by (simp add: create_tweet_def)
  have n: "length (db ex_state) \<le> 50"
    by (simp add: ex_state_def)
  have lst: "map (\<lambda>j. (json_id j, json_posted j)) (get_tweets (db (tick ex_ok ex_files ex_now ex_state)))
       = [(3, True), (2, True), (1, True)]"
    by (simp add: ex_tick_ok get_tweets_def tweet_dict_def ex_hello_def ex_long_def ex_gone_def)
  show ?thesis
    using posted_flag_hides_failure [OF ex_distinct c s d1 ex_long_len d2 ex_hello_len f]
      ex_distinct c s d1 d2 ex_long_len ex_hello_len f n lst
    by simp
qed

section \<open>Files of a rejected form\<close>

text \<open>
  C10. For a multipart form, \<open>schedule_tweet\<close> leaves the files as the loop over the
  uploads has written them, whatever it answers: no earlier file is removed, every
  upload with a name is stored in the upload folder under the name kept for it, and one
  name is kept per named upload. When the content is blank, the time is missing, more
  than four files were named, or the time parses and lies before the clock, the answer
  is an error 400 and the table is the table as it was: the files stay, no row is added.
\<close>

theorem rejected_form_keeps_files:
  "snd (snd (schedule_tweet env (Form c t uploads) (tws, fs))) = fst (save_images env 0 uploads fs [])
   \<and> dom fs \<subseteq> dom (fst (save_images env 0 uploads fs []))
   \<and> path_join UPLOAD_FOLDER ` set (snd (save_images env 0 uploads fs []))
       \<subseteq> dom (fst (save_images env 0 uploads fs []))
   \<and> length (snd (save_images env 0 uploads fs [])) = length (filter (\<lambda>f. filename f \<noteq> []) uploads)
   \<and> (strip c = [] \<or> t = [] \<or> 4 < length (filter (\<lambda>f. filename f \<noteq> []) uploads)
        \<or> (\<exists>d. fromisoformat env (replace_Z t) = Inr d
                \<and> datetime_less d (datetime_now env (utcoffset d)) = Inr True)
      \<longrightarrow> (\<exists>m. fst (schedule_tweet env (Form c t uploads) (tws, fs)) = Error_response 400 m)
          \<and> fst (snd (schedule_tweet env (Form c t uploads) (tws, fs))) = tws)"
proof -
  let ?names = "snd (save_images env 0 uploads fs [])"
  let ?fs' = "fst (save_images env 0 uploads fs [])"
  have a: "snd (snd (schedule_tweet env (Form c t uploads) (tws, fs))) = ?fs'"
    by (simp add: schedule_tweet_files)
  have b: "dom fs \<subseteq> dom ?fs'" by (rule save_images_dom)
  have s: "path_join UPLOAD_FOLDER ` set ?names \<subseteq> dom ?fs'"
    by (rule save_images_stored) simp
  have n: "length ?names = length (filter (\<lambda>f. filename f \<noteq> []) uploads)"
    by (simp add: save_images_length)
  have r: "(\<exists>m. fst (schedule_tweet env (Form c t uploads) (tws, fs)) = Error_response 400 m)
          \<and> fst (snd (schedule_tweet env (Form c t uploads) (tws, fs))) = tws"
    if "strip c = [] \<or> t = [] \<or> 4 < length (filter (\<lambda>f. filename f \<noteq> []) uploads)
        \<or> (\<exists>d. fromisoformat env (replace_Z t) = Inr d
                \<and> datetime_less d (datetime_now env (utcoffset d)) = Inr True)"
    using that unfolding schedule_tweet_outcome [OF read_request_form] n
    by (auto split: sum.splits)
  from a b s n r show ?thesis by blast
qed

theorem rejected_form_keeps_files_witness:
  "strip ''   '' = []
   \<and> schedule_tweet ex_env (Form ''   '' ''2024-01-01T10:00:00'' [ex_cat]) ([], Map.empty)
       = (Error_response 400 ''Tweet content is required'', [],
          [''uploads/20240101_100000_cat.png'' \<mapsto> ''PNG''])
   \<and> fst (snd (schedule_tweet ex_env (Form ''   '' ''2024-01-01T10:00:00'' [ex_cat]) ([], Map.empty))) = []
   \<and> dom (snd (snd (schedule_tweet ex_env (Form ''   '' ''2024-01-01T10:00:00'' [ex_cat]) ([], Map.empty))))
       = {''uploads/20240101_100000_cat.png''}"
proof -
  have e: "strip ''   '' = []"
    by (simp add: strip_def isspace_def)
  have sv: "save_images ex_env 0 [ex_cat] Map.empty []
              = ([''uploads/20240101_100000_cat.png'' \<mapsto> ''PNG''], [''20240101_100000_cat.png''])"
    by (simp add: ex_env_def ex_cat_def path_join_def UPLOAD_FOLDER_def Let_def)
  have rr: "read_request ex_env (Form ''   '' ''2024-01-01T10:00:00'' [ex_cat]) Map.empty
              = (''   '', ''2024-01-01T10:00:00'', [''20240101_100000_cat.png''],
                 [''uploads/20240101_100000_cat.png'' \<mapsto> ''PNG''])"
    by (simp only: read_request_form sv fst_conv snd_conv)
  have run: "schedule_tweet ex_env (Form ''   '' ''2024-01-01T10:00:00'' [ex_cat]) ([], Map.empty)
       = (Error_response 400 ''Tweet content is required'', [],
          [''uploads/20240101_100000_cat.png'' \<mapsto> ''PNG''])"
    by (simp add: schedule_tweet_outcome [OF rr] e)
  have kept: "fst (snd (schedule_tweet ex_env (Form ''   '' ''2024-01-01T10:00:00'' [ex_cat]) ([], Map.empty))) = []"
    using rejected_form_keeps_files [of ex_env "''   ''" "''2024-01-01T10:00:00''" "[ex_cat]" "[]" Map.empty]
      e
    by blast
  have "dom (snd (snd (schedule_tweet ex_env (Form ''   '' ''2024-01-01T10:00:00'' [ex_cat]) ([], Map.empty))))
       = {''uploads/20240101_100000_cat.png''}"
    by (simp add: run)
  with e run kept show ?thesis by simp
qed

section \<open>A time that is not in the future\<close>

text \<open>
  C2. A submission whose scheduled time is exactly the clock's reading: the handler tests
  \<^verbatim>\<open>scheduled_datetime < now\<close>, which is false, so it inserts a pending row and answers
  with the new id, although the time is not later than now and the handler's own
  message reads \<^verbatim>\<open>Scheduled time must be in the future\<close>.
\<close>

theorem schedule_at_now_accepted:
  "fromisoformat ex_env (replace_Z ''2024-01-01T10:00:00'') = Inr \<lparr>wall = 1704103200000000, utcoffset = None\<rparr>
   \<and> datetime_now ex_env None = \<lparr>wall = 1704103200000000, utcoffset = None\<rparr>
   \<and> schedule_tweet ex_env (Json ''Hello'' ''2024-01-01T10:00:00'' []) ([], Map.empty)
       = (Scheduled 1,
          [\<lparr>tweet_id = 1, content = ''Hello'', scheduled_time = ''2024-01-01T10:00:00'', posted = 0,
            image_paths_col = Null, created_at = ''2024-01-01 10:00:00''\<rparr>],
          Map.empty)"
proof -
  have p: "fromisoformat ex_env (replace_Z ''2024-01-01T10:00:00'')
             = Inr \<lparr>wall = 1704103200000000, utcoffset = None\<rparr>"
    by (simp add: ex_env_def replace_Z_def)
  have n: "datetime_now ex_env None = \<lparr>wall = 1704103200000000, utcoffset = None\<rparr>"
    by (simp add: datetime_now_def ex_env_def)
  have s: "strip ''Hello'' = ''Hello''"
    by (simp add: strip_def isspace_def)
  have "schedule_tweet ex_env (Json ''Hello'' ''2024-01-01T10:00:00'' []) ([], Map.empty)
       = (Scheduled 1,
          [\<lparr>tweet_id = 1, content = ''Hello'', scheduled_time = ''2024-01-01T10:00:00'', posted = 0,
            image_paths_col = Null, created_at = ''2024-01-01 10:00:00''\<rparr>],
          Map.empty)"
    by (simp add: schedule_tweet_def read_request_def s p n datetime_less_def lastrowid_def)
       (simp add: ex_env_def)
  with p n show ?thesis by simp
qed

end
